theory Spec2Isabelle
  imports Complex_Main "HOL-Library.Log_Nat" "HOL-Library.State_Monad"
begin

section \<open>Python floats, without rounding\<close>

text \<open>
  Every number of the tax computation in \<^verbatim>\<open>iwp.py\<close> is a Python \<^verbatim>\<open>float\<close>. The model keeps
  the four kinds of value a float can be: a finite number, the two infinities
  (\<^verbatim>\<open>float('inf')\<close> closes both slab tables) and not-a-number (\<^verbatim>\<open>inf - inf\<close>,
  \<^verbatim>\<open>inf * 0\<close>). Finite values are real numbers: rounding to 53 bits, overflow of a finite
  result to infinity and the sign of zero are left out here; the section on double
  arithmetic below has the rounding and the overflow. The operations follow IEEE 754 on
  the infinities and on not-a-number, and Python's \<^verbatim>\<open>min\<close> and \<^verbatim>\<open>max\<close> of two arguments,
  which keep the first argument unless the second compares strictly smaller (larger).
\<close>

datatype pyfloat = Fin real | PInf | NInf | NaN

fun flt :: "pyfloat \<Rightarrow> pyfloat \<Rightarrow> bool" where
  "flt NaN y = False"
| "flt x NaN = False"
| "flt (Fin a) (Fin b) = (a < b)"
| "flt (Fin a) PInf = True"
| "flt (Fin a) NInf = False"
| "flt PInf y = False"
| "flt NInf (Fin b) = True"
| "flt NInf PInf = True"
| "flt NInf NInf = False"

fun fle :: "pyfloat \<Rightarrow> pyfloat \<Rightarrow> bool" where
  "fle NaN y = False"
| "fle x NaN = False"
| "fle (Fin a) (Fin b) = (a \<le> b)"
| "fle (Fin a) PInf = True"
| "fle (Fin a) NInf = False"
| "fle PInf (Fin b) = False"
| "fle PInf PInf = True"
| "fle PInf NInf = False"
| "fle NInf y = True"

fun fadd :: "pyfloat \<Rightarrow> pyfloat \<Rightarrow> pyfloat" where
  "fadd NaN y = NaN"
| "fadd x NaN = NaN"
| "fadd (Fin a) (Fin b) = Fin (a + b)"
| "fadd (Fin a) PInf = PInf"
| "fadd (Fin a) NInf = NInf"
| "fadd PInf (Fin b) = PInf"
| "fadd PInf PInf = PInf"
| "fadd PInf NInf = NaN"
| "fadd NInf (Fin b) = NInf"
| "fadd NInf PInf = NaN"
| "fadd NInf NInf = NInf"

fun fsub :: "pyfloat \<Rightarrow> pyfloat \<Rightarrow> pyfloat" where
  "fsub NaN y = NaN"
| "fsub x NaN = NaN"
| "fsub (Fin a) (Fin b) = Fin (a - b)"
| "fsub (Fin a) PInf = NInf"
| "fsub (Fin a) NInf = PInf"
| "fsub PInf (Fin b) = PInf"
| "fsub PInf PInf = NaN"
| "fsub PInf NInf = PInf"
| "fsub NInf (Fin b) = NInf"
| "fsub NInf PInf = NInf"
| "fsub NInf NInf = NaN"

fun fmul :: "pyfloat \<Rightarrow> pyfloat \<Rightarrow> pyfloat" where
  "fmul NaN y = NaN"
| "fmul x NaN = NaN"
| "fmul (Fin a) (Fin b) = Fin (a * b)"
| "fmul (Fin a) PInf = (if a = 0 then NaN else if 0 < a then PInf else NInf)"
| "fmul (Fin a) NInf = (if a = 0 then NaN else if 0 < a then NInf else PInf)"
| "fmul PInf (Fin b) = (if b = 0 then NaN else if 0 < b then PInf else NInf)"
| "fmul NInf (Fin b) = (if b = 0 then NaN else if 0 < b then NInf else PInf)"
| "fmul PInf PInf = PInf"
| "fmul PInf NInf = NInf"
| "fmul NInf PInf = NInf"
| "fmul NInf NInf = PInf"

text \<open>\<^verbatim>\<open>x / 12.0\<close>, the only division of the computation.\<close>

fun fdiv12 :: "pyfloat \<Rightarrow> pyfloat" where
  "fdiv12 (Fin a) = Fin (a / 12)"
| "fdiv12 PInf = PInf"
| "fdiv12 NInf = NInf"
| "fdiv12 NaN = NaN"

definition py_min :: "pyfloat \<Rightarrow> pyfloat \<Rightarrow> pyfloat" where
  "py_min a b = (if flt b a then b else a)"

definition py_max :: "pyfloat \<Rightarrow> pyfloat \<Rightarrow> pyfloat" where
  "py_max a b = (if flt a b then b else a)"

section \<open>The slab tables of \<^verbatim>\<open>SalaryApp.__init__\<close>\<close>

type_synonym slabs = "(pyfloat \<times> pyfloat) list"

definition NEW_REGIME_SLABS :: slabs where
  "NEW_REGIME_SLABS =
     [(Fin 300000, Fin 0),
      (Fin 600000, Fin (5 / 100)),
      (Fin 900000, Fin (10 / 100)),
      (Fin 1200000, Fin (15 / 100)),
      (Fin 1500000, Fin (20 / 100)),
      (PInf, Fin (30 / 100))]"

definition OLD_REGIME_SLABS :: slabs where
  "OLD_REGIME_SLABS =
     [(Fin 250000, Fin 0),
      (Fin 500000, Fin (5 / 100)),
      (Fin 1000000, Fin (20 / 100)),
      (PInf, Fin (30 / 100))]"

definition OLD_REBATE_LIMIT :: pyfloat where
  "OLD_REBATE_LIMIT = Fin 500000"

definition NEW_REBATE_LIMIT :: pyfloat where
  "NEW_REBATE_LIMIT = Fin 700000"

definition CESS_RATE :: pyfloat where
  "CESS_RATE = Fin (4 / 100)"

section \<open>\<^verbatim>\<open>_compute_tax_from_slabs\<close>\<close>

text \<open>
  The \<^verbatim>\<open>for\<close> loop over the slabs, with its three variables \<^verbatim>\<open>tax\<close>, \<^verbatim>\<open>lower\<close> and
  \<^verbatim>\<open>remaining\<close> as arguments. The first branch is the \<^verbatim>\<open>continue\<close>, the inner
  \<^verbatim>\<open>if\<close> the \<^verbatim>\<open>break\<close>.
\<close>

fun slab_loop :: "pyfloat \<Rightarrow> pyfloat \<Rightarrow> pyfloat \<Rightarrow> slabs \<Rightarrow> pyfloat" where
  "slab_loop tax lower remaining [] = tax"
| "slab_loop tax lower remaining ((upper, rate) # rest) =
     (let slab_amount = py_max (Fin 0) (py_min (fsub upper lower) remaining)
      in if fle slab_amount (Fin 0) then slab_loop tax upper remaining rest
         else
           (let tax' = fadd tax (fmul slab_amount rate);
                remaining' = fsub remaining slab_amount
            in if fle remaining' (Fin 0) then tax'
               else slab_loop tax' upper remaining' rest))"

definition compute_tax_from_slabs :: "pyfloat \<Rightarrow> slabs \<Rightarrow> pyfloat" where
  "compute_tax_from_slabs taxable_income slabs = slab_loop (Fin 0) (Fin 0) taxable_income slabs"

section \<open>\<^verbatim>\<open>_calculate_tax\<close>\<close>

text \<open>
  The form's variables as \<^verbatim>\<open>_calculate_tax\<close> reads them: each numeric field is the float
  that \<^verbatim>\<open>to_float\<close> returns for it (the parsed text, or \<^verbatim>\<open>0.0\<close> when it does not parse),
  and \<^verbatim>\<open>regime_var\<close> is the string of the radio buttons. Whatever else the application
  object holds (the employee table, the widgets) is the extension part of the record.
\<close>

record form_vars =
  basic_var :: pyfloat
  hra_var :: pyfloat
  other_allow_var :: pyfloat
  other_income_var :: pyfloat
  std_ded_var :: pyfloat
  sec80c_var :: pyfloat
  sec80d_var :: pyfloat
  regime_var :: string

text \<open>
  The values of the nine rows of the result window, before they are formatted. The model
  of \<^verbatim>\<open>_calculate_tax\<close> follows the method statement by statement up to
  \<^verbatim>\<open>monthly_tds\<close>; the local \<^verbatim>\<open>rebate\<close>, which is assigned and never read, and the
  widgets of the window are left out. None of the float operations raises, so the
  \<^verbatim>\<open>except\<close> branch of the method is not reached from them.
\<close>

record tax_breakdown =
  gross_salary :: pyfloat
  other_income :: pyfloat
  gross_total_income :: pyfloat
  total_deductions :: pyfloat
  taxable_income :: pyfloat
  tax_before_cess :: pyfloat
  cess :: pyfloat
  total_tax :: pyfloat
  monthly_tds :: pyfloat

definition calculate_tax :: "'a form_vars_scheme \<Rightarrow> tax_breakdown" where
  "calculate_tax self =
     (let basic_month = basic_var self;
          hra_month = hra_var self;
          other_allow_month = other_allow_var self;
          other_income = other_income_var self;
          basic_annual = fmul basic_month (Fin 12);
          hra_annual = fmul hra_month (Fin 12);
          other_allow_annual = fmul other_allow_month (Fin 12);
          gross_salary = fadd (fadd basic_annual hra_annual) other_allow_annual;
          gross_total_income = fadd gross_salary other_income;
          std_ded = std_ded_var self;
          sec80c = sec80c_var self;
          sec80d = sec80d_var self;
          total_deductions = fadd (fadd std_ded sec80c) sec80d;
          taxable_income = py_max (Fin 0) (fsub gross_total_income total_deductions);
          regime = regime_var self;
          (slabs, rebate_limit) =
            (if regime = ''new'' then (NEW_REGIME_SLABS, NEW_REBATE_LIMIT)
             else (OLD_REGIME_SLABS, OLD_REBATE_LIMIT));
          tax_before_cess = compute_tax_from_slabs taxable_income slabs;
          tax_before_cess = (if fle taxable_income rebate_limit then Fin 0 else tax_before_cess);
          cess = fmul tax_before_cess CESS_RATE;
          total_tax = fadd tax_before_cess cess;
          monthly_tds = fdiv12 total_tax
      in \<lparr>gross_salary = gross_salary,
          other_income = other_income,
          gross_total_income = gross_total_income,
          total_deductions = total_deductions,
          taxable_income = taxable_income,
          tax_before_cess = tax_before_cess,
          cess = cess,
          total_tax = total_tax,
          monthly_tds = monthly_tds\<rparr>)"

section \<open>\<^verbatim>\<open>_calculate_tax\<close> as a method of the application object\<close>

text \<open>
  The object \<^verbatim>\<open>self\<close> as far as \<^verbatim>\<open>_calculate_tax\<close> looks at it: the eight variables of the
  form and the five attributes that \<^verbatim>\<open>__init__\<close> sets under ``Tax slabs and limits
  (configurable)''. The method reads the tables, the limits and the cess rate from
  \<^verbatim>\<open>self\<close>, so here they are fields of the state and not constants. Everything else the
  object holds is the extension part of the record.
\<close>

record app = form_vars +
  new_regime_slabs :: slabs
  old_regime_slabs :: slabs
  old_rebate_limit :: pyfloat
  new_rebate_limit :: pyfloat
  cess_rate :: pyfloat

text \<open>Reading an attribute or a variable of \<^verbatim>\<open>self\<close>.\<close>

definition attr :: "('s \<Rightarrow> 'a) \<Rightarrow> ('s, 'a) state" where
  "attr field = State_Monad.bind State_Monad.get (\<lambda>self. State_Monad.return (field self))"

text \<open>
  The method, statement by statement, as a computation on the state of the object: every
  \<^verbatim>\<open>self.x\<close> and every \<^verbatim>\<open>to_float(self.x_var)\<close> is a read of the state at that point, the
  locals are bound in between, and the value returned is the breakdown that the result
  window shows. The window is created and destroyed within the call.
\<close>

definition calculate_tax_method :: "('a app_scheme, tax_breakdown) state" where
  "calculate_tax_method = do {
     basic_month \<leftarrow> attr basic_var;
     hra_month \<leftarrow> attr hra_var;
     other_allow_month \<leftarrow> attr other_allow_var;
     other_income \<leftarrow> attr other_income_var;
     let basic_annual = fmul basic_month (Fin 12);
     let hra_annual = fmul hra_month (Fin 12);
     let other_allow_annual = fmul other_allow_month (Fin 12);
     let gross_salary = fadd (fadd basic_annual hra_annual) other_allow_annual;
     let gross_total_income = fadd gross_salary other_income;
     std_ded \<leftarrow> attr std_ded_var;
     sec80c \<leftarrow> attr sec80c_var;
     sec80d \<leftarrow> attr sec80d_var;
     let total_deductions = fadd (fadd std_ded sec80c) sec80d;
     let taxable_income = py_max (Fin 0) (fsub gross_total_income total_deductions);
     regime \<leftarrow> attr regime_var;
     (slabs, rebate_limit) \<leftarrow>
       (if regime = ''new''
        then do {
          slabs \<leftarrow> attr new_regime_slabs;
          rebate_limit \<leftarrow> attr new_rebate_limit;
          State_Monad.return (slabs, rebate_limit) }
        else do {
          slabs \<leftarrow> attr old_regime_slabs;
          rebate_limit \<leftarrow> attr old_rebate_limit;
          State_Monad.return (slabs, rebate_limit) });
     let tax_before_cess = compute_tax_from_slabs taxable_income slabs;
     let tax_before_cess = (if fle taxable_income rebate_limit then Fin 0 else tax_before_cess);
     rate \<leftarrow> attr cess_rate;
     let cess = fmul tax_before_cess rate;
     let total_tax = fadd tax_before_cess cess;
     let monthly_tds = fdiv12 total_tax;
     State_Monad.return
       \<lparr>gross_salary = gross_salary,
        other_income = other_income,
        gross_total_income = gross_total_income,
        total_deductions = total_deductions,
        taxable_income = taxable_income,
        tax_before_cess = tax_before_cess,
        cess = cess,
        total_tax = total_tax,
        monthly_tds = monthly_tds\<rparr> }"

text \<open>The five attributes hold what \<^verbatim>\<open>__init__\<close> assigned to them.\<close>

definition configured :: "'a app_scheme \<Rightarrow> bool" where
  "configured self =
     (new_regime_slabs self = NEW_REGIME_SLABS \<and> old_regime_slabs self = OLD_REGIME_SLABS
      \<and> old_rebate_limit self = OLD_REBATE_LIMIT \<and> new_rebate_limit self = NEW_REBATE_LIMIT
      \<and> cess_rate self = CESS_RATE)"

section \<open>Double arithmetic\<close>

text \<open>
  The arithmetic of the program itself: a Python \<^verbatim>\<open>float\<close> is an IEEE 754 binary64
  number, and every sum, difference and product is the exact result rounded to the nearest
  such number, ties to the even significand. \<open>to_double\<close> is that rounding: 53 significant
  bits, exponents down to the subnormal step \<^verbatim>\<open>2**-1074\<close>, and infinity from \<^verbatim>\<open>2**1024\<close> on. Only the
  sign of zero is left out.
\<close>

text \<open>\<open>expo x\<close> is the exponent of \<open>x \<noteq> 0\<close>: the \<open>e\<close> with \<open>2 ^ e \<le> \<bar>x\<bar> < 2 ^ (e + 1)\<close>.\<close>

definition expo :: "real \<Rightarrow> int" where
  "expo x = (if 1 \<le> \<bar>x\<bar> then bitlen \<lfloor>\<bar>x\<bar>\<rfloor> - 1 else - bitlen (\<lceil>1 / \<bar>x\<bar>\<rceil> - 1))"

definition two_power :: "int \<Rightarrow> real" where
  "two_power k = (if 0 \<le> k then 2 ^ nat k else 1 / 2 ^ nat (- k))"

text \<open>Rounding to the nearest integer, a tie to the even one.\<close>

definition rne :: "real \<Rightarrow> int" where
  "rne x = (let f = \<lfloor>x\<rfloor>; d = x - of_int f
            in if d < 1 / 2 then f else if 1 / 2 < d then f + 1
               else if even f then f else f + 1)"

definition to_double :: "real \<Rightarrow> pyfloat" where
  "to_double x =
     (if x = 0 then Fin 0
      else (let e = max (expo x) (- 1022);
                q = two_power (e - 52);
                y = of_int (rne (x / q)) * q
            in if two_power 1024 \<le> \<bar>y\<bar> then (if 0 < x then PInf else NInf) else Fin y))"

text \<open>
  The three operations on doubles: the rounded exact result on finite arguments, and the
  rules of the section on floats for infinities and not-a-number.
\<close>

fun fadd_d :: "pyfloat \<Rightarrow> pyfloat \<Rightarrow> pyfloat" where
  "fadd_d (Fin a) (Fin b) = to_double (a + b)"
| "fadd_d x y = fadd x y"

fun fsub_d :: "pyfloat \<Rightarrow> pyfloat \<Rightarrow> pyfloat" where
  "fsub_d (Fin a) (Fin b) = to_double (a - b)"
| "fsub_d x y = fsub x y"

fun fmul_d :: "pyfloat \<Rightarrow> pyfloat \<Rightarrow> pyfloat" where
  "fmul_d (Fin a) (Fin b) = to_double (a * b)"
| "fmul_d x y = fmul x y"

text \<open>\<^verbatim>\<open>_compute_tax_from_slabs\<close> once more, in this arithmetic.\<close>

fun slab_loop_d :: "pyfloat \<Rightarrow> pyfloat \<Rightarrow> pyfloat \<Rightarrow> slabs \<Rightarrow> pyfloat" where
  "slab_loop_d tax lower remaining [] = tax"
| "slab_loop_d tax lower remaining ((upper, rate) # rest) =
     (let slab_amount = py_max (Fin 0) (py_min (fsub_d upper lower) remaining)
      in if fle slab_amount (Fin 0) then slab_loop_d tax upper remaining rest
         else
           (let tax' = fadd_d tax (fmul_d slab_amount rate);
                remaining' = fsub_d remaining slab_amount
            in if fle remaining' (Fin 0) then tax'
               else slab_loop_d tax' upper remaining' rest))"

definition compute_tax_from_slabs_d :: "pyfloat \<Rightarrow> slabs \<Rightarrow> pyfloat" where
  "compute_tax_from_slabs_d income slabs = slab_loop_d (Fin 0) (Fin 0) income slabs"

text \<open>
  A table as Python holds it: every literal is the double nearest to the number written,
  so \<^verbatim>\<open>0.05\<close> is \<open>3602879701896397 / 2 ^ 56\<close>.
\<close>

fun as_double :: "pyfloat \<Rightarrow> pyfloat" where
  "as_double (Fin x) = to_double x"
| "as_double PInf = PInf"
| "as_double NInf = NInf"
| "as_double NaN = NaN"

fun doubles_of :: "slabs \<Rightarrow> slabs" where
  "doubles_of [] = []"
| "doubles_of ((upper, rate) # rest) = (as_double upper, as_double rate) # doubles_of rest"

section \<open>Definitions for the statements\<close>

text \<open>
  The walk of the specification that does not stop early: the loop of
  \<^verbatim>\<open>_compute_tax_from_slabs\<close> with the \<^verbatim>\<open>break\<close> taken out, so that it visits every slab.
\<close>

fun slab_loop_no_break :: "pyfloat \<Rightarrow> pyfloat \<Rightarrow> pyfloat \<Rightarrow> slabs \<Rightarrow> pyfloat" where
  "slab_loop_no_break tax lower remaining [] = tax"
| "slab_loop_no_break tax lower remaining ((upper, rate) # rest) =
     (let slab_amount = py_max (Fin 0) (py_min (fsub upper lower) remaining)
      in if fle slab_amount (Fin 0) then slab_loop_no_break tax upper remaining rest
         else
           (let tax' = fadd tax (fmul slab_amount rate);
                remaining' = fsub remaining slab_amount
            in slab_loop_no_break tax' upper remaining' rest))"

definition compute_tax_no_break :: "pyfloat \<Rightarrow> slabs \<Rightarrow> pyfloat" where
  "compute_tax_no_break income slabs = slab_loop_no_break (Fin 0) (Fin 0) income slabs"

text \<open>
  A valid schedule, as the specification's data model describes it: the upper bounds are
  finite and strictly increasing from above 0, except the last, which is infinite; every
  rate is a fraction.
\<close>

fun is_fraction :: "pyfloat \<Rightarrow> bool" where
  "is_fraction (Fin q) = (0 \<le> q \<and> q \<le> 1)"
| "is_fraction PInf = False"
| "is_fraction NInf = False"
| "is_fraction NaN = False"

fun valid_from :: "real \<Rightarrow> slabs \<Rightarrow> bool" where
  "valid_from lower [] = False"
| "valid_from lower [(upper, rate)] = (upper = PInf \<and> is_fraction rate)"
| "valid_from lower ((upper, rate) # rest) =
     (case upper of
        Fin u \<Rightarrow> lower < u \<and> is_fraction rate \<and> valid_from u rest
      | PInf \<Rightarrow> False
      | NInf \<Rightarrow> False
      | NaN \<Rightarrow> False)"

definition valid_schedule :: "slabs \<Rightarrow> bool" where
  "valid_schedule S = valid_from 0 S"

text \<open>
  The contribution of a run of slabs that are all filled to the top: the sum of
  \<^verbatim>\<open>(upper - lower) * rate\<close> over them, \<open>lower\<close> being the bound below the first.
\<close>

fun filled :: "pyfloat \<Rightarrow> slabs \<Rightarrow> pyfloat" where
  "filled lower [] = Fin 0"
| "filled lower ((upper, rate) # rest) =
     fadd (fmul (fsub upper lower) rate) (filled upper rest)"

text \<open>
  The value of \<^verbatim>\<open>max(0.0, min(upper - lower, remaining))\<close> for a finite \<^verbatim>\<open>remaining\<close>, as a
  real number; \<open>w\<close> is the width \<^verbatim>\<open>upper - lower\<close>.
\<close>

fun amt :: "pyfloat \<Rightarrow> real \<Rightarrow> real" where
  "amt (Fin x) r = max 0 (min x r)"
| "amt PInf r = max 0 r"
| "amt NInf r = 0"
| "amt NaN r = 0"

text \<open>The rates of a list of slabs are all finite and not negative.\<close>

fun nonneg_rate :: "pyfloat \<Rightarrow> bool" where
  "nonneg_rate (Fin q) = (0 \<le> q)"
| "nonneg_rate PInf = False"
| "nonneg_rate NInf = False"
| "nonneg_rate NaN = False"

fun rates_nonneg :: "slabs \<Rightarrow> bool" where
  "rates_nonneg [] = True"
| "rates_nonneg ((upper, rate) # rest) = (nonneg_rate rate \<and> rates_nonneg rest)"

text \<open>
  A filled-in form for the worked examples: a monthly basic pay, an annual other income and
  a regime string, with the form's defaults in the other fields (standard deduction 50000,
  the rest 0).
\<close>

definition sample_form :: "real \<Rightarrow> real \<Rightarrow> string \<Rightarrow> form_vars" where
  "sample_form basic other regime =
     \<lparr>basic_var = Fin basic, hra_var = Fin 0, other_allow_var = Fin 0,
      other_income_var = Fin other, std_ded_var = Fin 50000, sec80c_var = Fin 0,
      sec80d_var = Fin 0, regime_var = regime\<rparr>"

text \<open>
  The same sum in double arithmetic, added up slab by slab in the order of the table,
  from the running total \<open>acc\<close>.
\<close>

fun filled_d :: "pyfloat \<Rightarrow> pyfloat \<Rightarrow> slabs \<Rightarrow> pyfloat" where
  "filled_d acc lower [] = acc"
| "filled_d acc lower ((upper, rate) # rest) =
     filled_d (fadd_d acc (fmul_d (fsub_d upper lower) rate)) upper rest"

text \<open>
  The finite bounds of a table are whole numbers of at most \<open>2 ^ 53\<close> in size, so that they and
  their differences are doubles. Both tables of the program are such.
\<close>

definition whole :: "real \<Rightarrow> bool" where
  "whole x = (of_int \<lfloor>x\<rfloor> = x \<and> \<bar>x\<bar> \<le> 2 ^ 53)"

fun whole_bound :: "pyfloat \<Rightarrow> bool" where
  "whole_bound (Fin u) = whole u"
| "whole_bound PInf = True"
| "whole_bound NInf = False"
| "whole_bound NaN = False"

fun whole_bounds :: "slabs \<Rightarrow> bool" where
  "whole_bounds [] = True"
| "whole_bounds ((upper, rate) # rest) = (whole_bound upper \<and> whole_bounds rest)"

text \<open>
  A valid schedule with bounds that are not whole: \<^verbatim>\<open>[(0.1, 0.0), (0.2, 0.0), (0.4, 0.0),
  (float('inf'), 1.0)]\<close>.
\<close>

definition tenths_schedule :: slabs where
  "tenths_schedule =
     doubles_of
       [(Fin (1 / 10), Fin 0), (Fin (2 / 10), Fin 0), (Fin (4 / 10), Fin 0), (PInf, Fin 1)]"

text \<open>
  What decides the breakdown: the eight variables of the form and the five attributes.
\<close>

definition tax_inputs ::
  "'a app_scheme \<Rightarrow>
   (pyfloat \<times> pyfloat \<times> pyfloat \<times> pyfloat \<times> pyfloat \<times> pyfloat \<times> pyfloat \<times> string)
   \<times> (slabs \<times> slabs \<times> pyfloat \<times> pyfloat \<times> pyfloat)" where
  "tax_inputs self =
     ((basic_var self, hra_var self, other_allow_var self, other_income_var self,
       std_ded_var self, sec80c_var self, sec80d_var self, regime_var self),
      (new_regime_slabs self, old_regime_slabs self, old_rebate_limit self,
       new_rebate_limit self, cess_rate self))"

text \<open>
  An object for the worked examples: the form of scenario 1, the attributes as
  \<^verbatim>\<open>__init__\<close> sets them, and anything at all as the rest of the object.
\<close>

definition sample_app :: "'a \<Rightarrow> 'a app_scheme" where
  "sample_app other =
     \<lparr>basic_var = Fin 100000, hra_var = Fin 0, other_allow_var = Fin 0,
      other_income_var = Fin 0, std_ded_var = Fin 50000, sec80c_var = Fin 0,
      sec80d_var = Fin 0, regime_var = ''new'',
      new_regime_slabs = NEW_REGIME_SLABS, old_regime_slabs = OLD_REGIME_SLABS,
      old_rebate_limit = OLD_REBATE_LIMIT, new_rebate_limit = NEW_REBATE_LIMIT,
      cess_rate = CESS_RATE, \<dots> = other\<rparr>"

section \<open>The slab amount\<close>

lemma slab_amount_exhausted:
  "fle remaining (Fin 0) \<Longrightarrow> py_max (Fin 0) (py_min w remaining) = Fin 0"
  by (cases w; cases remaining) (auto simp: py_max_def py_min_def)

lemma slab_amount_Fin:
  "py_max (Fin 0) (py_min w (Fin r)) = Fin (amt w r)"
  by (cases w) (auto simp: py_max_def py_min_def)

lemma amt_nonneg: "0 \<le> amt w r"
  by (cases w) auto

lemma amt_mono: "a \<le> b \<Longrightarrow> amt w a \<le> amt w b"
  by (cases w) auto

lemma amt_rest_mono: "a \<le> b \<Longrightarrow> a - amt w a \<le> b - amt w b"
  by (cases w) auto

section \<open>The walk with and without the early exit\<close>

lemma slab_loop_exhausted:
  "fle remaining (Fin 0) \<Longrightarrow> slab_loop tax lower remaining S = tax"
  by (induction S arbitrary: lower) (auto simp: slab_amount_exhausted)

lemma slab_loop_no_break_exhausted:
  "fle remaining (Fin 0) \<Longrightarrow> slab_loop_no_break tax lower remaining S = tax"
  by (induction S arbitrary: lower) (auto simp: slab_amount_exhausted)

lemma slab_loop_eq_no_break:
  "slab_loop tax lower remaining S = slab_loop_no_break tax lower remaining S"
proof (induction S arbitrary: tax lower remaining)
  case Nil
  show ?case by simp
next
  case (Cons s S)
  obtain upper rate where s: "s = (upper, rate)" by (cases s)
  show ?case
    unfolding s by (simp add: Let_def Cons.IH slab_loop_no_break_exhausted)
qed

lemma slab_loop_no_break_step:
  "slab_loop_no_break (Fin t) lower (Fin r) ((upper, Fin q) # rest) =
     slab_loop_no_break (Fin (t + amt (fsub upper lower) r * q)) upper
       (Fin (r - amt (fsub upper lower) r)) rest"
  using amt_nonneg [of "fsub upper lower" r]
  by (auto simp: slab_amount_Fin Let_def)

text \<open>
  C6. Stopping the walk once \<^verbatim>\<open>remaining\<close> has reached 0 changes nothing: for every
  taxable income and every schedule (valid or not), \<^verbatim>\<open>_compute_tax_from_slabs\<close> returns
  what the walk through all the slabs returns, and from \<^verbatim>\<open>remaining = 0\<close> on that walk
  adds nothing to the tax, whatever slabs follow.
\<close>

theorem early_exit_is_optimization:
  "compute_tax_from_slabs income S = compute_tax_no_break income S
   \<and> slab_loop_no_break tax lower (Fin 0) rest = tax"
  by (simp add: compute_tax_from_slabs_def compute_tax_no_break_def slab_loop_eq_no_break
      slab_loop_no_break_exhausted)

text \<open>
  C9. For a negative taxable income (a negative number or minus infinity) and any list of
  slabs at all, \<^verbatim>\<open>_compute_tax_from_slabs\<close> returns 0.
\<close>

theorem negative_income_zero_tax:
  "flt income (Fin 0) \<Longrightarrow> compute_tax_from_slabs income S = Fin 0"
proof -
  assume "flt income (Fin 0)"
  then have "fle income (Fin 0)"
    by (cases income) auto
  then show ?thesis
    by (simp add: compute_tax_from_slabs_def slab_loop_exhausted)
qed

theorem negative_income_zero_tax_witness:
  "flt (Fin (- 5)) (Fin 0) \<and> compute_tax_from_slabs (Fin (- 5)) NEW_REGIME_SLABS = Fin 0"
  using negative_income_zero_tax [of "Fin (- 5)" NEW_REGIME_SLABS] by simp

section \<open>Monotonicity\<close>

lemma is_fraction_nonneg: "is_fraction r \<Longrightarrow> nonneg_rate r"
  by (cases r) auto

lemma valid_from_rates_nonneg: "valid_from l S \<Longrightarrow> rates_nonneg S"
  by (induction l S rule: valid_from.induct) (auto simp: is_fraction_nonneg split: pyfloat.splits)

text \<open>
  With finite rates that are not negative, more income left and more tax so far give more
  tax at the end, whatever the bounds are; and the result is finite.
\<close>

lemma slab_loop_no_break_mono:
  "rates_nonneg S \<Longrightarrow> a \<le> b \<Longrightarrow> t1 \<le> t2 \<Longrightarrow>
   \<exists>x y. slab_loop_no_break (Fin t1) lower (Fin a) S = Fin x
        \<and> slab_loop_no_break (Fin t2) lower (Fin b) S = Fin y \<and> x \<le> y"
proof (induction S arbitrary: t1 t2 lower a b)
  case Nil
  then show ?case by simp
next
  case (Cons s S)
  obtain upper rate where s: "s = (upper, rate)" by (cases s)
  from Cons.prems(1) s obtain q where rate: "rate = Fin q" and q: "0 \<le> q"
    and rest: "rates_nonneg S"
    by (cases rate) auto
  let ?w = "fsub upper lower"
  have tax: "t1 + amt ?w a * q \<le> t2 + amt ?w b * q"
    using amt_mono [OF Cons.prems(2), of ?w] q Cons.prems(3)
    by (simp add: add_mono mult_right_mono)
  have rem: "a - amt ?w a \<le> b - amt ?w b"
    using Cons.prems(2) by (rule amt_rest_mono)
  show ?case
    unfolding s rate slab_loop_no_break_step
    by (rule Cons.IH [OF rest rem tax])
qed

text \<open>
  C3. The tax of \<^verbatim>\<open>_compute_tax_from_slabs\<close> is monotone in the taxable income: for every
  valid schedule and finite incomes \<open>a \<le> b\<close> (negative ones too), the tax on \<open>a\<close> is at most
  the tax on \<open>b\<close>.
\<close>

theorem compute_tax_monotone:
  assumes "valid_schedule S" and "a \<le> b"
  shows "fle (compute_tax_from_slabs (Fin a) S) (compute_tax_from_slabs (Fin b) S)"
proof -
  have "rates_nonneg S"
    using assms(1) by (simp add: valid_schedule_def valid_from_rates_nonneg)
  from slab_loop_no_break_mono [OF this assms(2), of 0 0 "Fin 0"]
  show ?thesis
    by (auto simp: compute_tax_from_slabs_def slab_loop_eq_no_break)
qed

theorem compute_tax_monotone_witness:
  "valid_schedule NEW_REGIME_SLABS \<and> (650000::real) \<le> 1000000
   \<and> compute_tax_from_slabs (Fin 650000) NEW_REGIME_SLABS = Fin 20000
   \<and> compute_tax_from_slabs (Fin 1000000) NEW_REGIME_SLABS = Fin 60000
   \<and> fle (compute_tax_from_slabs (Fin 650000) NEW_REGIME_SLABS)
       (compute_tax_from_slabs (Fin 1000000) NEW_REGIME_SLABS)"
  using compute_tax_monotone [of NEW_REGIME_SLABS 650000 1000000]
  by (simp add: valid_schedule_def NEW_REGIME_SLABS_def compute_tax_from_slabs_def
      py_max_def py_min_def Let_def)

section \<open>The tax at a slab's upper bound\<close>

lemma fadd_zero_right: "fadd x (Fin 0) = x"
  by (cases x) auto

lemma fadd_zero_left: "fadd (Fin 0) x = x"
  by (cases x) auto

lemma fadd_Fin_assoc: "fadd (Fin (x + y)) z = fadd (Fin x) (fadd (Fin y) z)"
  by (cases z) auto

lemma valid_from_upper_gt:
  "valid_from l S \<Longrightarrow> i < length S \<Longrightarrow> fst (S ! i) = Fin u \<Longrightarrow> l < u"
proof (induction l S arbitrary: i rule: valid_from.induct)
  case (1 lower)
  then show ?case by simp
next
  case (2 lower upper rate)
  then show ?case by simp
next
  case (3 lower upper rate v va)
  then show ?case
    by (cases i) (fastforce split: pyfloat.splits)+
qed

lemma valid_from_bounds:
  "valid_from l S \<Longrightarrow> i < length S \<Longrightarrow>
   (\<exists>u. fst (S ! i) = Fin u) \<or> (fst (S ! i) = PInf \<and> Suc i = length S)"
proof (induction l S arbitrary: i rule: valid_from.induct)
  case (1 lower)
  then show ?case by simp
next
  case (2 lower upper rate)
  then show ?case by simp
next
  case (3 lower upper rate v va)
  from "3.prems"(1) obtain u0 where upper: "upper = Fin u0" and rest: "valid_from u0 (v # va)"
    by (cases upper) auto
  show ?case
  proof (cases i)
    case 0
    then show ?thesis by (simp add: upper)
  next
    case (Suc j)
    with "3.prems"(2) have "j < length (v # va)" by simp
    from "3.IH" [OF upper rest this] show ?thesis
      by (simp add: Suc)
  qed
qed

text \<open>
  The walk that starts at the lower bound \<open>l\<close> of a valid run of slabs with exactly the
  income that reaches the finite bound \<open>u\<close> of its slab \<open>i\<close> fills the slabs up to \<open>i\<close> and
  stops there.
\<close>

lemma slab_loop_at_boundary:
  "valid_from l S \<Longrightarrow> i < length S \<Longrightarrow> fst (S ! i) = Fin u \<Longrightarrow>
   slab_loop (Fin t) (Fin l) (Fin (u - l)) S = fadd (Fin t) (filled (Fin l) (take (Suc i) S))"
proof (induction l S arbitrary: i t rule: valid_from.induct)
  case (1 lower)
  then show ?case by simp
next
  case (2 lower upper rate)
  then show ?case by simp
next
  case (3 lower upper rate v va)
  from "3.prems"(1) obtain u0 q where upper: "upper = Fin u0" and lt: "lower < u0"
    and rate: "rate = Fin q" and rest: "valid_from u0 (v # va)"
    by (cases upper; cases rate) auto
  show ?case
  proof (cases i)
    case 0
    with "3.prems"(3) upper have "u0 = u" by simp
    with lt show ?thesis
      unfolding upper rate 0 by (simp add: slab_amount_Fin Let_def)
  next
    case (Suc j)
    with "3.prems" have j: "j < length (v # va)" and uj: "fst ((v # va) ! j) = Fin u"
      by simp_all
    have "u0 < u" using valid_from_upper_gt [OF rest j uj] .
    have IH: "slab_loop (Fin (t + (u0 - lower) * q)) (Fin u0) (Fin (u - u0)) (v # va)
       = fadd (Fin (t + (u0 - lower) * q)) (filled (Fin u0) (take (Suc j) (v # va)))"
      using "3.IH" [OF upper rest j uj] .
    have "slab_loop (Fin t) (Fin lower) (Fin (u - lower)) ((upper, rate) # v # va)
       = slab_loop (Fin (t + (u0 - lower) * q)) (Fin u0) (Fin (u - u0)) (v # va)"
      unfolding upper rate using lt \<open>u0 < u\<close>
      by (simp add: slab_amount_Fin Let_def)
    also note IH
    finally show ?thesis
      unfolding upper rate Suc by (simp add: fadd_Fin_assoc)
  qed
qed

text \<open>An infinite income fills every slab of a valid run.\<close>

lemma slab_loop_unbounded:
  "valid_from l S \<Longrightarrow> slab_loop (Fin t) (Fin l) PInf S = fadd (Fin t) (filled (Fin l) S)"
proof (induction l S arbitrary: t rule: valid_from.induct)
  case (1 lower)
  then show ?case by simp
next
  case (2 lower upper rate)
  then obtain q where "upper = PInf" and "rate = Fin q"
    by (cases rate) auto
  then show ?case
    by (simp add: py_max_def py_min_def Let_def)
next
  case (3 lower upper rate v va)
  from "3.prems"(1) obtain u0 q where upper: "upper = Fin u0" and lt: "lower < u0"
    and rate: "rate = Fin q" and rest: "valid_from u0 (v # va)"
    by (cases upper; cases rate) auto
  have "slab_loop (Fin t) (Fin lower) PInf ((upper, rate) # v # va)
     = slab_loop (Fin (t + (u0 - lower) * q)) (Fin u0) PInf (v # va)"
    unfolding upper rate using lt by (simp add: py_max_def py_min_def Let_def)
  also have "\<dots> = fadd (Fin (t + (u0 - lower) * q)) (filled (Fin u0) (v # va))"
    using "3.IH" [OF upper rest] .
  finally show ?case
    unfolding upper rate by (simp add: fadd_Fin_assoc)
qed

text \<open>
  In exact arithmetic the walk has no jump at any bound of any valid schedule: the tax on
  an income equal to the upper bound of slab \<open>i\<close> is the sum of \<^verbatim>\<open>(upper - lower) * rate\<close>
  over the slabs 0 to \<open>i\<close>.
\<close>

lemma boundary_exact_arithmetic:
  assumes "valid_schedule S" and "i < length S"
  shows "compute_tax_from_slabs (fst (S ! i)) S = filled (Fin 0) (take (Suc i) S)"
proof -
  from assms have v: "valid_from 0 S" by (simp add: valid_schedule_def)
  from valid_from_bounds [OF v assms(2)] show ?thesis
  proof
    assume "\<exists>u. fst (S ! i) = Fin u"
    then obtain u where u: "fst (S ! i) = Fin u" ..
    from slab_loop_at_boundary [OF v assms(2) u, of 0] show ?thesis
      by (simp add: compute_tax_from_slabs_def u fadd_zero_left)
  next
    assume "fst (S ! i) = PInf \<and> Suc i = length S"
    with slab_loop_unbounded [OF v, of 0] show ?thesis
      by (simp add: compute_tax_from_slabs_def fadd_zero_left)
  qed
qed

section \<open>The tax at a slab's upper bound, in double arithmetic\<close>

subsection \<open>Rounding is exact on whole numbers up to \<open>2 ^ 53\<close>\<close>

lemmas double_eval = to_double_def expo_def rne_def two_power_def compute_bitlen Let_def

lemma rne_of_int: "rne (of_int m) = m"
  by (simp add: rne_def)

lemma two_power_pos: "0 < two_power k"
  by (simp add: two_power_def)

lemma to_double_0: "to_double 0 = Fin 0"
  by (simp add: to_double_def)

lemma to_double_exact:
  assumes "x \<noteq> 0" and "x / two_power (max (expo x) (- 1022) - 52) = of_int m"
    and "\<bar>x\<bar> < two_power 1024"
  shows "to_double x = Fin x"
proof -
  let ?q = "two_power (max (expo x) (- 1022) - 52)"
  have "?q \<noteq> 0" using two_power_pos [of "max (expo x) (- 1022) - 52"] by simp
  then have "of_int m * ?q = x"
    using assms(2) by (simp add: field_simps)
  with assms show ?thesis
    by (simp add: to_double_def Let_def rne_of_int)
qed

lemma expo_of_int: "n \<noteq> 0 \<Longrightarrow> expo (of_int n) = bitlen \<bar>n\<bar> - 1"
proof -
  assume "n \<noteq> 0"
  then have "1 \<le> \<bar>n\<bar>" by linarith
  then have "real_of_int 1 \<le> real_of_int \<bar>n\<bar>" by (simp only: of_int_le_iff)
  then have "1 \<le> \<bar>real_of_int n\<bar>" by simp
  moreover have "\<lfloor>\<bar>real_of_int n\<bar>\<rfloor> = \<bar>n\<bar>"
    by (simp flip: of_int_abs)
  ultimately show ?thesis by (simp add: expo_def)
qed

lemma to_double_of_int:
  assumes "\<bar>n\<bar> \<le> 2 ^ 53"
  shows "to_double (of_int n) = Fin (of_int n)"
proof (cases "n = 0")
  case True
  then show ?thesis by (simp add: to_double_def)
next
  case False
  define e where "e = bitlen \<bar>n\<bar> - 1"
  from False have pos: "0 < \<bar>n\<bar>" by simp
  from bitlen_bounds [OF pos] have lo: "2 ^ nat e \<le> \<bar>n\<bar>" and hi: "\<bar>n\<bar> < 2 ^ nat (e + 1)"
    by (simp_all add: e_def)
  have e0: "0 \<le> e"
    using pos bitlen_eq_zero_iff [of "\<bar>n\<bar>"] bitlen_nonneg [of "\<bar>n\<bar>"] by (simp add: e_def)
  have le53: "(2::int) ^ nat e \<le> 2 ^ 53" using lo assms by linarith
  have "nat e \<le> 53"
    by (rule power_le_imp_le_exp [OF _ le53]) simp
  then have e53: "e \<le> 53" using e0 by linarith
  have ex: "expo (of_int n) = e"
    using False by (simp add: expo_of_int e_def)
  have mx: "max (expo (real_of_int n)) (- 1022) = e"
    using e0 by (simp add: ex)
  have small: "\<bar>real_of_int n\<bar> < two_power 1024"
  proof -
    have "\<bar>real_of_int n\<bar> \<le> 2 ^ 53"
      using assms by (metis of_int_abs of_int_le_numeral_power_cancel_iff)
    also have "\<dots> < (2::real) ^ 1024" by simp
    finally show ?thesis by (simp add: two_power_def)
  qed
  have "\<exists>m. real_of_int n / two_power (e - 52) = of_int m"
  proof (cases "e \<le> 52")
    case True
    then have "two_power (e - 52) = 1 / 2 ^ nat (52 - e)"
      by (cases "e = 52") (simp_all add: two_power_def)
    then have "real_of_int n / two_power (e - 52) = of_int (n * 2 ^ nat (52 - e))"
      by simp
    then show ?thesis ..
  next
    case False
    with e53 have e: "e = 53" by simp
    with hi lo assms have "\<bar>n\<bar> = 2 ^ 53" by simp
    then have "n = 2 ^ 53 \<or> n = - (2 ^ 53)" by linarith
    then have "real_of_int n / two_power (e - 52) = of_int (n div 2)"
      by (auto simp: e two_power_def)
    then show ?thesis ..
  qed
  then obtain m
    where "real_of_int n / two_power (max (expo (real_of_int n)) (- 1022) - 52) = of_int m"
    unfolding mx ..
  from to_double_exact [OF _ this small] False show ?thesis by simp
qed

lemma to_double_difference:
  assumes "whole a" and "whole b" and "0 \<le> b" and "b \<le> a"
  shows "to_double (a - b) = Fin (a - b)"
proof -
  from assms(1) have "of_int \<lfloor>a\<rfloor> = a \<and> \<bar>a\<bar> \<le> 2 ^ 53"
    unfolding whole_def .
  then have a: "a = of_int \<lfloor>a\<rfloor>" and "\<bar>a\<bar> \<le> 2 ^ 53"
    by (rule conjunct1 [THEN sym], rule conjunct2)
  from assms(2) have "of_int \<lfloor>b\<rfloor> = b \<and> \<bar>b\<bar> \<le> 2 ^ 53"
    unfolding whole_def .
  then have b: "b = of_int \<lfloor>b\<rfloor>"
    by (rule conjunct1 [THEN sym])
  from \<open>\<bar>a\<bar> \<le> 2 ^ 53\<close> have "a \<le> 2 ^ 53" by linarith
  with assms(3,4) have "0 \<le> a - b" and "a - b \<le> 2 ^ 53" by linarith+
  moreover have ab: "a - b = of_int (\<lfloor>a\<rfloor> - \<lfloor>b\<rfloor>)"
    using a b by (metis of_int_diff)
  ultimately have "real_of_int \<bar>\<lfloor>a\<rfloor> - \<lfloor>b\<rfloor>\<bar> \<le> real_of_int (2 ^ 53)"
    by simp
  then have "\<bar>\<lfloor>a\<rfloor> - \<lfloor>b\<rfloor>\<bar> \<le> 2 ^ 53"
    by (simp only: of_int_le_iff)
  then show ?thesis
    unfolding ab by (rule to_double_of_int)
qed

lemma whole_0: "whole 0"
  by (simp add: whole_def)

subsection \<open>The walk on whole bounds\<close>

lemma valid_from_whole_nth:
  "valid_from l S \<Longrightarrow> whole_bounds S \<Longrightarrow> i < length S \<Longrightarrow> fst (S ! i) = Fin u \<Longrightarrow> whole u"
proof (induction S arbitrary: i l)
  case Nil
  then show ?case by simp
next
  case (Cons s S)
  obtain upper rate where s: "s = (upper, rate)" by (cases s)
  show ?case
  proof (cases i)
    case 0
    with Cons.prems s show ?thesis by simp
  next
    case (Suc j)
    from Cons.prems(1) s Suc Cons.prems(3) obtain u0 where "upper = Fin u0" "valid_from u0 S"
      by (cases S; cases upper) auto
    with Cons.prems s Suc Cons.IH [of u0 j] show ?thesis by simp
  qed
qed

lemma slab_loop_d_at_boundary:
  "valid_from l S \<Longrightarrow> whole_bounds S \<Longrightarrow> whole l \<Longrightarrow> 0 \<le> l \<Longrightarrow> i < length S \<Longrightarrow>
   fst (S ! i) = Fin u \<Longrightarrow>
   slab_loop_d tax (Fin l) (Fin (u - l)) S = filled_d tax (Fin l) (take (Suc i) S)"
proof (induction l S arbitrary: i tax rule: valid_from.induct)
  case (1 lower)
  then show ?case by simp
next
  case (2 lower upper rate)
  then show ?case by simp
next
  case (3 lower upper rate v va)
  from "3.prems"(1) obtain u0 where upper: "upper = Fin u0" and lt: "lower < u0"
    and rest: "valid_from u0 (v # va)"
    by (cases upper) auto
  from "3.prems"(2) upper have wu0: "whole u0" and wrest: "whole_bounds (v # va)"
    by simp_all
  have wu: "whole u"
    using valid_from_whole_nth [OF "3.prems"(1,2,5,6)] .
  have width: "to_double (u0 - lower) = Fin (u0 - lower)"
    using to_double_difference [OF wu0 "3.prems"(3,4)] lt by simp
  let ?tax' = "fadd_d tax (fmul_d (Fin (u0 - lower)) rate)"
  show ?case
  proof (cases i)
    case 0
    with "3.prems"(6) upper have u: "u = u0" by simp
    from lt show ?thesis
      unfolding upper 0 u by (simp add: width py_max_def py_min_def Let_def to_double_0)
  next
    case (Suc j)
    with "3.prems" have j: "j < length (v # va)" and uj: "fst ((v # va) ! j) = Fin u"
      by simp_all
    have "u0 < u" using valid_from_upper_gt [OF rest j uj] .
    have left: "to_double (u - u0) = Fin (u - u0)"
      using to_double_difference [OF wu wu0] lt "3.prems"(4) \<open>u0 < u\<close> by simp
    have IH: "slab_loop_d ?tax' (Fin u0) (Fin (u - u0)) (v # va)
       = filled_d ?tax' (Fin u0) (take (Suc j) (v # va))"
      using "3.IH" [OF upper rest wrest wu0 _ j uj] lt "3.prems"(4) by simp
    have "slab_loop_d tax (Fin lower) (Fin (u - lower)) ((upper, rate) # v # va)
       = slab_loop_d ?tax' (Fin u0) (Fin (u - u0)) (v # va)"
      unfolding upper using lt \<open>u0 < u\<close>
      by (simp add: width left py_max_def py_min_def Let_def)
    also note IH
    finally show ?thesis
      unfolding upper Suc by (simp add: width)
  qed
qed

lemma slab_loop_d_unbounded:
  "valid_from l S \<Longrightarrow> whole_bounds S \<Longrightarrow> whole l \<Longrightarrow> 0 \<le> l \<Longrightarrow>
   slab_loop_d tax (Fin l) PInf S = filled_d tax (Fin l) S"
proof (induction l S arbitrary: tax rule: valid_from.induct)
  case (1 lower)
  then show ?case by simp
next
  case (2 lower upper rate)
  then have "upper = PInf" by simp
  then show ?case
    by (simp add: py_max_def py_min_def Let_def)
next
  case (3 lower upper rate v va)
  from "3.prems"(1) obtain u0 where upper: "upper = Fin u0" and lt: "lower < u0"
    and rest: "valid_from u0 (v # va)"
    by (cases upper) auto
  from "3.prems"(2) upper have wu0: "whole u0" and wrest: "whole_bounds (v # va)"
    by simp_all
  have width: "to_double (u0 - lower) = Fin (u0 - lower)"
    using to_double_difference [OF wu0 "3.prems"(3,4)] lt by simp
  let ?tax' = "fadd_d tax (fmul_d (Fin (u0 - lower)) rate)"
  have "slab_loop_d tax (Fin lower) PInf ((upper, rate) # v # va)
     = slab_loop_d ?tax' (Fin u0) PInf (v # va)"
    unfolding upper using lt by (simp add: width py_max_def py_min_def Let_def)
  also have "\<dots> = filled_d ?tax' (Fin u0) (v # va)"
    using "3.IH" [OF upper rest wrest wu0] lt "3.prems"(4) by simp
  finally show ?case
    unfolding upper by (simp add: width)
qed

subsection \<open>The tables as doubles\<close>

lemma tenths_schedule_eq:
  "tenths_schedule =
     [(Fin (3602879701896397 / 2 ^ 55), Fin 0), (Fin (3602879701896397 / 2 ^ 54), Fin 0),
      (Fin (3602879701896397 / 2 ^ 53), Fin 0), (PInf, Fin 1)]"
  by (simp add: tenths_schedule_def double_eval)

lemma old_doubles:
  "doubles_of OLD_REGIME_SLABS =
     [(Fin 250000, Fin 0), (Fin 500000, Fin (3602879701896397 / 2 ^ 56)),
      (Fin 1000000, Fin (3602879701896397 / 2 ^ 54)),
      (PInf, Fin (5404319552844595 / 2 ^ 54))]"
  by (simp add: OLD_REGIME_SLABS_def double_eval)

lemma new_doubles:
  "doubles_of NEW_REGIME_SLABS =
     [(Fin 300000, Fin 0), (Fin 600000, Fin (3602879701896397 / 2 ^ 56)),
      (Fin 900000, Fin (3602879701896397 / 2 ^ 55)),
      (Fin 1200000, Fin (5404319552844595 / 2 ^ 55)),
      (Fin 1500000, Fin (3602879701896397 / 2 ^ 54)),
      (PInf, Fin (5404319552844595 / 2 ^ 54))]"
  by (simp add: NEW_REGIME_SLABS_def double_eval)

text \<open>Both tables of the program are valid schedules with whole bounds.\<close>

lemma program_tables_whole:
  "valid_schedule (doubles_of NEW_REGIME_SLABS) \<and> whole_bounds (doubles_of NEW_REGIME_SLABS)
   \<and> valid_schedule (doubles_of OLD_REGIME_SLABS) \<and> whole_bounds (doubles_of OLD_REGIME_SLABS)"
  unfolding old_doubles new_doubles
  by (simp add: valid_schedule_def whole_def)

text \<open>
  As stated for every valid schedule, the property fails in the arithmetic of the program.
  On the valid schedule \<^verbatim>\<open>[(0.1, 0.0), (0.2, 0.0), (0.4, 0.0), (float('inf'), 1.0)]\<close> and the
  income \<^verbatim>\<open>0.4\<close>, the upper bound of slab 2, the first subtraction
  \<^verbatim>\<open>remaining -= slab_amount\<close> rounds \<^verbatim>\<open>0.4 - 0.1\<close> up to \<^verbatim>\<open>0.30000000000000004\<close>; after
  slab 2 a remainder of \<^verbatim>\<open>2**-55\<close> is left, and the last slab taxes it at its rate 1. The
  walk returns \<^verbatim>\<open>2**-55\<close> (about \<^verbatim>\<open>2.78e-17\<close>), while the slabs 0 to 2, all of rate 0,
  sum to 0.
\<close>

theorem boundary_continuity_counterexample:
  "valid_schedule tenths_schedule
   \<and> (2::nat) < length tenths_schedule
   \<and> fst (tenths_schedule ! 2) = Fin (3602879701896397 / 2 ^ 53)
   \<and> compute_tax_from_slabs_d (fst (tenths_schedule ! 2)) tenths_schedule = Fin (1 / 2 ^ 55)
   \<and> filled_d (Fin 0) (Fin 0) (take (Suc 2) tenths_schedule) = Fin 0
   \<and> compute_tax_from_slabs_d (fst (tenths_schedule ! 2)) tenths_schedule
       \<noteq> filled_d (Fin 0) (Fin 0) (take (Suc 2) tenths_schedule)"
  unfolding tenths_schedule_eq
  by (simp add: valid_schedule_def compute_tax_from_slabs_d_def py_max_def py_min_def double_eval)

text \<open>
  C5, amended. In the double arithmetic of the program, for every valid schedule whose
  finite bounds are whole numbers of at most \<open>2 ^ 53\<close> (both tables of the program are such)
  and every slab \<open>i\<close> of it, the tax on an income equal to the slab's upper bound is the sum
  of \<^verbatim>\<open>(upper - lower) * rate\<close> over the slabs 0 to \<open>i\<close>, added up in the order of the slabs
  in the same arithmetic: the walk has no jump at a bound. (At the last slab, whose bound
  is infinite, both sides are infinite, or both not-a-number when the top rate is 0.)
\<close>

theorem boundary_continuity_whole_bounds:
  assumes "valid_schedule S" and "whole_bounds S" and "i < length S"
  shows "compute_tax_from_slabs_d (fst (S ! i)) S = filled_d (Fin 0) (Fin 0) (take (Suc i) S)"
proof -
  from assms have v: "valid_from 0 S" by (simp add: valid_schedule_def)
  from valid_from_bounds [OF v assms(3)] show ?thesis
  proof
    assume "\<exists>u. fst (S ! i) = Fin u"
    then obtain u where u: "fst (S ! i) = Fin u" ..
    from slab_loop_d_at_boundary [OF v assms(2) whole_0 _ assms(3) u, of "Fin 0"] show ?thesis
      by (simp add: compute_tax_from_slabs_d_def u)
  next
    assume "fst (S ! i) = PInf \<and> Suc i = length S"
    with slab_loop_d_unbounded [OF v assms(2) whole_0, of "Fin 0"] show ?thesis
      by (simp add: compute_tax_from_slabs_d_def)
  qed
qed

theorem boundary_continuity_whole_bounds_witness:
  "valid_schedule (doubles_of OLD_REGIME_SLABS) \<and> whole_bounds (doubles_of OLD_REGIME_SLABS)
   \<and> (2::nat) < length (doubles_of OLD_REGIME_SLABS)
   \<and> fst (doubles_of OLD_REGIME_SLABS ! 2) = Fin 1000000
   \<and> compute_tax_from_slabs_d (Fin 1000000) (doubles_of OLD_REGIME_SLABS) = Fin 112500
   \<and> filled_d (Fin 0) (Fin 0) (take (Suc 2) (doubles_of OLD_REGIME_SLABS)) = Fin 112500"
  using boundary_continuity_whole_bounds [of "doubles_of OLD_REGIME_SLABS" 2]
  unfolding old_doubles
  by (simp add: valid_schedule_def whole_def double_eval)

section \<open>The breakdown\<close>

text \<open>
  C1. Scenario 1: a monthly basic pay of 100000, nothing else, the standard deduction of
  50000, new regime. The breakdown is gross salary 1200000, taxable income 1150000, tax
  before cess 82500, cess 3300, total tax 85800, monthly withholding 7150; the taxable
  income is above the rebate limit, so no rebate applies.
\<close>

theorem scenario_1_new_regime:
  "calculate_tax
     \<lparr>basic_var = Fin 100000, hra_var = Fin 0, other_allow_var = Fin 0,
      other_income_var = Fin 0, std_ded_var = Fin 50000, sec80c_var = Fin 0,
      sec80d_var = Fin 0, regime_var = ''new''\<rparr>
   = \<lparr>gross_salary = Fin 1200000, other_income = Fin 0, gross_total_income = Fin 1200000,
      total_deductions = Fin 50000, taxable_income = Fin 1150000,
      tax_before_cess = Fin 82500, cess = Fin 3300, total_tax = Fin 85800,
      monthly_tds = Fin 7150\<rparr>
   \<and> \<not> fle (Fin 1150000) NEW_REBATE_LIMIT
   \<and> compute_tax_from_slabs (Fin 1150000) NEW_REGIME_SLABS = Fin 82500"
  by (simp add: calculate_tax_def compute_tax_from_slabs_def NEW_REGIME_SLABS_def
      NEW_REBATE_LIMIT_def CESS_RATE_def py_max_def py_min_def Let_def)

lemma calc_fields:
  "taxable_income (calculate_tax s) =
     py_max (Fin 0)
       (fsub (gross_total_income (calculate_tax s)) (total_deductions (calculate_tax s)))"
  "tax_before_cess (calculate_tax s) =
     (if regime_var s = ''new''
      then (if fle (taxable_income (calculate_tax s)) NEW_REBATE_LIMIT then Fin 0
            else compute_tax_from_slabs (taxable_income (calculate_tax s)) NEW_REGIME_SLABS)
      else (if fle (taxable_income (calculate_tax s)) OLD_REBATE_LIMIT then Fin 0
            else compute_tax_from_slabs (taxable_income (calculate_tax s)) OLD_REGIME_SLABS))"
  "cess (calculate_tax s) = fmul (tax_before_cess (calculate_tax s)) CESS_RATE"
  "total_tax (calculate_tax s) = fadd (tax_before_cess (calculate_tax s)) (cess (calculate_tax s))"
  "monthly_tds (calculate_tax s) = fdiv12 (total_tax (calculate_tax s))"
  by (simp_all add: calculate_tax_def Let_def)

lemma py_max_zero_cases:
  "(\<exists>r. 0 \<le> r \<and> py_max (Fin 0) x = Fin r) \<or> py_max (Fin 0) x = PInf"
  by (cases x) (auto simp: py_max_def)

lemma taxable_nonneg: "fle (Fin 0) (taxable_income (calculate_tax s))"
  using py_max_zero_cases
    [of "fsub (gross_total_income (calculate_tax s)) (total_deductions (calculate_tax s))"]
  by (auto simp: calc_fields(1))

lemma new_above_limit:
  assumes "700000 < r"
  shows "flt (Fin 0) (compute_tax_from_slabs (Fin r) NEW_REGIME_SLABS)"
proof -
  have "rates_nonneg NEW_REGIME_SLABS" by (simp add: NEW_REGIME_SLABS_def)
  from slab_loop_no_break_mono [OF this, of 700000 r 0 0 "Fin 0"] assms
  obtain x y where x: "compute_tax_from_slabs (Fin 700000) NEW_REGIME_SLABS = Fin x"
    and y: "compute_tax_from_slabs (Fin r) NEW_REGIME_SLABS = Fin y" and "x \<le> y"
    by (auto simp: compute_tax_from_slabs_def slab_loop_eq_no_break)
  moreover have "compute_tax_from_slabs (Fin 700000) NEW_REGIME_SLABS = Fin 25000"
    by (simp add: compute_tax_from_slabs_def NEW_REGIME_SLABS_def py_max_def py_min_def Let_def)
  ultimately show ?thesis by simp
qed

lemma new_unbounded: "compute_tax_from_slabs PInf NEW_REGIME_SLABS = PInf"
  by (simp add: compute_tax_from_slabs_def NEW_REGIME_SLABS_def py_max_def py_min_def Let_def)

text \<open>
  C2. Under the new regime, a taxable income of at most 700000 gives a tax before cess of
  exactly 0, and any taxable income above 700000 gives a tax before cess above 0: the
  rebate is a cliff at 700000.
\<close>

theorem rebate_cliff_new_regime:
  assumes "regime_var s = ''new''"
  shows "(fle (taxable_income (calculate_tax s)) (Fin 700000)
            \<longrightarrow> tax_before_cess (calculate_tax s) = Fin 0)
       \<and> (flt (Fin 700000) (taxable_income (calculate_tax s))
            \<longrightarrow> flt (Fin 0) (tax_before_cess (calculate_tax s)))"
proof (intro conjI impI)
  assume "fle (taxable_income (calculate_tax s)) (Fin 700000)"
  with assms show "tax_before_cess (calculate_tax s) = Fin 0"
    by (simp add: calc_fields(2) NEW_REBATE_LIMIT_def)
next
  assume above: "flt (Fin 700000) (taxable_income (calculate_tax s))"
  let ?ti = "taxable_income (calculate_tax s)"
  from above have not_le: "\<not> fle ?ti (Fin 700000)"
    by (cases ?ti) auto
  with assms have tbc:
    "tax_before_cess (calculate_tax s) = compute_tax_from_slabs ?ti NEW_REGIME_SLABS"
    by (simp add: calc_fields(2) NEW_REBATE_LIMIT_def)
  from above show "flt (Fin 0) (tax_before_cess (calculate_tax s))"
    unfolding tbc by (cases ?ti) (simp_all add: new_above_limit new_unbounded)
qed

theorem rebate_cliff_new_regime_witness:
  "regime_var (sample_form 62500 0 ''new'') = ''new''
   \<and> taxable_income (calculate_tax (sample_form 62500 0 ''new'')) = Fin 700000
   \<and> tax_before_cess (calculate_tax (sample_form 62500 0 ''new'')) = Fin 0
   \<and> regime_var (sample_form 62500 1 ''new'') = ''new''
   \<and> taxable_income (calculate_tax (sample_form 62500 1 ''new'')) = Fin 700001
   \<and> flt (Fin 0) (tax_before_cess (calculate_tax (sample_form 62500 1 ''new'')))
   \<and> tax_before_cess (calculate_tax (sample_form 62500 1 ''new'')) = Fin (250001 / 10)"
  using rebate_cliff_new_regime [of "sample_form 62500 0 ''new''"]
    rebate_cliff_new_regime [of "sample_form 62500 1 ''new''"]
  by (simp add: sample_form_def calculate_tax_def compute_tax_from_slabs_def
      NEW_REGIME_SLABS_def NEW_REBATE_LIMIT_def CESS_RATE_def py_max_def py_min_def Let_def)

text \<open>
  C4. In every breakdown the cess is the tax before cess times 0.04 and the total tax is
  the tax before cess plus the cess, where the tax before cess is the value after the
  rebate: 0 when the taxable income is within the regime's rebate limit, the tax of the
  slabs otherwise.
\<close>

theorem cess_proportional:
  "cess (calculate_tax s) = fmul (tax_before_cess (calculate_tax s)) (Fin (4 / 100))
   \<and> total_tax (calculate_tax s)
       = fadd (tax_before_cess (calculate_tax s)) (cess (calculate_tax s))
   \<and> tax_before_cess (calculate_tax s) =
       (if fle (taxable_income (calculate_tax s))
             (if regime_var s = ''new'' then NEW_REBATE_LIMIT else OLD_REBATE_LIMIT)
        then Fin 0
        else compute_tax_from_slabs (taxable_income (calculate_tax s))
             (if regime_var s = ''new'' then NEW_REGIME_SLABS else OLD_REGIME_SLABS))"
  by (simp add: calc_fields(2,3,4) CESS_RATE_def)

text \<open>
  C7. Whatever the form holds, the taxable income of the breakdown is
  \<^verbatim>\<open>max(0.0, gross_total_income - total_deductions)\<close>, it is not below 0 (nor not-a-number),
  and it is the income that \<^verbatim>\<open>_compute_tax_from_slabs\<close> is called with.
\<close>

theorem taxable_income_clamped:
  "taxable_income (calculate_tax s) =
     py_max (Fin 0)
       (fsub (gross_total_income (calculate_tax s)) (total_deductions (calculate_tax s)))
   \<and> fle (Fin 0) (taxable_income (calculate_tax s))
   \<and> \<not> flt (taxable_income (calculate_tax s)) (Fin 0)
   \<and> tax_before_cess (calculate_tax s) =
       (if fle (taxable_income (calculate_tax s))
             (if regime_var s = ''new'' then NEW_REBATE_LIMIT else OLD_REBATE_LIMIT)
        then Fin 0
        else compute_tax_from_slabs (taxable_income (calculate_tax s))
             (if regime_var s = ''new'' then NEW_REGIME_SLABS else OLD_REGIME_SLABS))"
proof -
  let ?ti = "taxable_income (calculate_tax s)"
  have nonneg: "fle (Fin 0) ?ti" by (rule taxable_nonneg)
  then have "\<not> flt ?ti (Fin 0)" by (cases ?ti) auto
  with nonneg show ?thesis
    by (simp add: calc_fields(2)) (rule calc_fields(1))
qed

text \<open>Deductions above the income: the taxable income is 0, and so is the tax.\<close>

lemma deductions_exceed_income:
  "taxable_income (calculate_tax (sample_form 1000 0 ''old'')) = Fin 0
   \<and> gross_total_income (calculate_tax (sample_form 1000 0 ''old'')) = Fin 12000
   \<and> total_deductions (calculate_tax (sample_form 1000 0 ''old'')) = Fin 50000
   \<and> total_tax (calculate_tax (sample_form 1000 0 ''old'')) = Fin 0"
  by (simp add: sample_form_def calculate_tax_def OLD_REBATE_LIMIT_def CESS_RATE_def
      py_max_def Let_def)

lemma run_attr: "run_state (attr field) s = (field s, s)"
  by (simp add: attr_def)

text \<open>
  C8. Calculating leaves the object as it was: the method reads the eight variables and
  the five attributes and assigns to nothing. So a second call, from the object the first
  call left, shows the same breakdown. The breakdown depends on those thirteen values only:
  two objects that agree on them get the same breakdown, whatever else they hold. With the
  attributes as \<^verbatim>\<open>__init__\<close> sets them, it is the breakdown of \<open>calculate_tax\<close>.
\<close>

theorem calculate_tax_idempotent:
  "snd (run_state calculate_tax_method s) = s
   \<and> fst (run_state calculate_tax_method (snd (run_state calculate_tax_method s)))
       = fst (run_state calculate_tax_method s)
   \<and> (tax_inputs s = tax_inputs s' \<longrightarrow>
        fst (run_state calculate_tax_method s) = fst (run_state calculate_tax_method s'))
   \<and> (configured s \<longrightarrow> fst (run_state calculate_tax_method s) = calculate_tax s)"
proof -
  have frame: "snd (run_state calculate_tax_method s) = s"
    by (simp add: calculate_tax_method_def run_attr Let_def split_beta)
  have inputs: "fst (run_state calculate_tax_method s) = fst (run_state calculate_tax_method s')"
    if "tax_inputs s = tax_inputs s'"
    using that by (simp add: calculate_tax_method_def tax_inputs_def run_attr Let_def split_beta)
  have init: "fst (run_state calculate_tax_method s) = calculate_tax s" if "configured s"
    using that
    by (simp add: calculate_tax_method_def calculate_tax_def configured_def run_attr Let_def
        split_beta)
  from frame inputs init show ?thesis by simp
qed

theorem calculate_tax_idempotent_witness:
  "tax_inputs (sample_app (1 :: nat)) = tax_inputs (sample_app ''employees'')
   \<and> configured (sample_app (1 :: nat))
   \<and> snd (run_state calculate_tax_method (sample_app (1 :: nat))) = sample_app 1
   \<and> fst (run_state calculate_tax_method (sample_app (1 :: nat)))
       = fst (run_state calculate_tax_method (sample_app ''employees''))
   \<and> total_tax (fst (run_state calculate_tax_method (sample_app (1 :: nat)))) = Fin 85800"
proof -
  have c: "configured (sample_app (1 :: nat))"
    by (simp add: configured_def sample_app_def)
  have i: "tax_inputs (sample_app (1 :: nat)) = tax_inputs (sample_app ''employees'')"
    by (simp add: tax_inputs_def sample_app_def)
  have v: "total_tax (calculate_tax (sample_app (1 :: nat))) = Fin 85800"
    by (simp add: sample_app_def calculate_tax_def compute_tax_from_slabs_def
        NEW_REGIME_SLABS_def NEW_REBATE_LIMIT_def CESS_RATE_def py_max_def py_min_def Let_def)
  note t = calculate_tax_idempotent [of "sample_app (1 :: nat)" "sample_app ''employees''"]
  from t have frame: "snd (run_state calculate_tax_method (sample_app (1 :: nat))) = sample_app 1"
    by (rule conjunct1)
  from t i have same: "fst (run_state calculate_tax_method (sample_app (1 :: nat)))
      = fst (run_state calculate_tax_method (sample_app ''employees''))"
    by blast
  from t c have "fst (run_state calculate_tax_method (sample_app (1 :: nat)))
      = calculate_tax (sample_app (1 :: nat))"
    by blast
  with v have "total_tax (fst (run_state calculate_tax_method (sample_app (1 :: nat)))) = Fin 85800"
    by (simp only:)
  with i c frame same show ?thesis
    by (intro conjI)
qed

text \<open>
  C10. Any regime string other than \<^verbatim>\<open>"new"\<close> (the empty string and misspellings too) is
  treated as \<^verbatim>\<open>"old"\<close>: the breakdown is the one of \<^verbatim>\<open>"old"\<close>, with the old slabs and the
  rebate limit 500000. Only \<^verbatim>\<open>"new"\<close> itself gives the new slabs and the limit 700000.
\<close>

theorem regime_selector:
  "(regime_var s \<noteq> ''new'' \<longrightarrow>
      calculate_tax s = calculate_tax (s\<lparr>regime_var := ''old''\<rparr>)
      \<and> tax_before_cess (calculate_tax s) =
          (if fle (taxable_income (calculate_tax s)) (Fin 500000) then Fin 0
           else compute_tax_from_slabs (taxable_income (calculate_tax s)) OLD_REGIME_SLABS))
   \<and> (regime_var s = ''new'' \<longrightarrow>
      tax_before_cess (calculate_tax s) =
          (if fle (taxable_income (calculate_tax s)) (Fin 700000) then Fin 0
           else compute_tax_from_slabs (taxable_income (calculate_tax s)) NEW_REGIME_SLABS))"
  by (simp add: calculate_tax_def Let_def NEW_REBATE_LIMIT_def OLD_REBATE_LIMIT_def)

theorem regime_selector_witness:
  "regime_var (sample_form 50000 0 '''') \<noteq> ''new''
   \<and> calculate_tax (sample_form 50000 0 '''') = calculate_tax (sample_form 50000 0 ''old'')
   \<and> taxable_income (calculate_tax (sample_form 50000 0 '''')) = Fin 550000
   \<and> tax_before_cess (calculate_tax (sample_form 50000 0 '''')) = Fin 22500
   \<and> regime_var (sample_form 50000 0 ''new'') = ''new''
   \<and> tax_before_cess (calculate_tax (sample_form 50000 0 ''new'')) = Fin 0"
  using regime_selector [of "sample_form 50000 0 ''''"]
    regime_selector [of "sample_form 50000 0 ''new''"]
  by (simp add: sample_form_def calculate_tax_def compute_tax_from_slabs_def
      NEW_REGIME_SLABS_def OLD_REGIME_SLABS_def OLD_REBATE_LIMIT_def NEW_REBATE_LIMIT_def
      CESS_RATE_def py_max_def py_min_def Let_def)

end
